theory Spec2Isabelle
  imports
    Main
    "HOL-Library.Word"
    "HOL-Library.Char_ord"
    "HOL-Library.List_Lexorder"
    "HOL-Library.Multiset"
begin

unbundle bit_operations_syntax

section \<open>ERC-20 module parameters (x/erc20/types/params.go)\<close>

text \<open>
  Go strings are byte sequences and are compared bytewise, a proper prefix being smaller:
  \<^typ>\<open>string\<close> with the order of \<open>Char_ord\<close> (characters by their code) and
  \<open>List_Lexorder\<close> (lists lexicographically) is that order. A byte of an address is an
  \<^typ>\<open>8 word\<close>.
\<close>

subsection \<open>Library functions the file calls\<close>

type_synonym byte = "8 word"

text \<open>
  \<open>common.Address\<close> is \<open>[AddressLength]byte\<close>; the model is a list of bytes, and every
  address built by \<open>HexToAddress\<close> has length \<open>AddressLength\<close>.
\<close>

type_synonym Address = "byte list"

definition AddressLength :: nat where
  "AddressLength = 20"

definition byte_of :: "char \<Rightarrow> byte" where
  "byte_of c = of_nat (of_char c)"

definition char_of_byte :: "byte \<Rightarrow> char" where
  "char_of_byte b = char_of (unat b)"

text \<open>go-ethereum \<open>common.has0xPrefix\<close>.\<close>

fun has0xPrefix :: "string \<Rightarrow> bool" where
  "has0xPrefix (c0 # c1 # str) = (c0 = CHR ''0'' \<and> (c1 = CHR ''x'' \<or> c1 = CHR ''X''))"
| "has0xPrefix str = False"

text \<open>go-ethereum \<open>common.isHexCharacter\<close> and \<open>common.isHex\<close>.\<close>

definition isHexCharacter :: "char \<Rightarrow> bool" where
  "isHexCharacter c =
     ((CHR ''0'' \<le> c \<and> c \<le> CHR ''9'') \<or> (CHR ''a'' \<le> c \<and> c \<le> CHR ''f'')
      \<or> (CHR ''A'' \<le> c \<and> c \<le> CHR ''F''))"

definition isHex :: "string \<Rightarrow> bool" where
  "isHex str = (if length str mod 2 \<noteq> 0 then False else list_all isHexCharacter str)"

text \<open>go-ethereum \<open>common.IsHexAddress\<close>.\<close>

definition IsHexAddress :: "string \<Rightarrow> bool" where
  "IsHexAddress s =
     (let s' = (if has0xPrefix s then drop 2 s else s)
      in length s' = 2 * AddressLength \<and> isHex s')"

text \<open>
  \<open>encoding/hex\<close>: the value of a hexadecimal digit, and \<open>hex.DecodeString\<close> with its error
  dropped, as \<open>common.Hex2Bytes\<close> calls it: the bytes decoded before the first character
  that is not a digit.
\<close>

definition fromHexChar :: "char \<Rightarrow> byte option" where
  "fromHexChar c =
     (if CHR ''0'' \<le> c \<and> c \<le> CHR ''9'' then Some (byte_of c - byte_of CHR ''0'')
      else if CHR ''a'' \<le> c \<and> c \<le> CHR ''f'' then Some (byte_of c - byte_of CHR ''a'' + 10)
      else if CHR ''A'' \<le> c \<and> c \<le> CHR ''F'' then Some (byte_of c - byte_of CHR ''A'' + 10)
      else None)"

fun Hex2Bytes :: "string \<Rightarrow> byte list" where
  "Hex2Bytes (p # q # src) =
     (case fromHexChar p of
        None \<Rightarrow> []
      | Some a \<Rightarrow>
          (case fromHexChar q of
             None \<Rightarrow> []
           | Some b \<Rightarrow> (push_bit 4 a OR b) # Hex2Bytes src))"
| "Hex2Bytes src = []"

text \<open>go-ethereum \<open>common.FromHex\<close>, \<open>common.BytesToAddress\<close> and \<open>common.HexToAddress\<close>.\<close>

definition FromHex :: "string \<Rightarrow> byte list" where
  "FromHex s =
     (let s1 = (if has0xPrefix s then drop 2 s else s);
          s2 = (if length s1 mod 2 = 1 then CHR ''0'' # s1 else s1)
      in Hex2Bytes s2)"

definition BytesToAddress :: "byte list \<Rightarrow> Address" where
  "BytesToAddress b =
     (let b' = (if length b > AddressLength then drop (length b - AddressLength) b else b)
      in replicate (AddressLength - length b') 0 @ b')"

definition HexToAddress :: "string \<Rightarrow> Address" where
  "HexToAddress s = BytesToAddress (FromHex s)"

text \<open>
  \<open>Address.Hex\<close>, the EIP-55 rendering: the lower-case hexadecimal digits of the bytes
  after \<open>0x\<close>, a letter being put in upper case when the matching nibble of the Keccak-256
  hash of the digits is above 7. The hash function is a parameter \<open>keccak\<close>.
\<close>

definition hextable :: string where
  "hextable = ''0123456789abcdef''"

fun hex_Encode :: "byte list \<Rightarrow> string" where
  "hex_Encode [] = []"
| "hex_Encode (v # src) =
     hextable ! unat (drop_bit 4 v) # hextable ! unat (v AND 0x0f) # hex_Encode src"

definition hex :: "Address \<Rightarrow> string" where
  "hex a = ''0x'' @ hex_Encode a"

fun checksum_loop :: "byte list \<Rightarrow> nat \<Rightarrow> string \<Rightarrow> string" where
  "checksum_loop hash i [] = []"
| "checksum_loop hash i (c # buf) =
     (let hashByte = hash ! ((i - 2) div 2);
          hashByte' = (if i mod 2 = 0 then drop_bit 4 hashByte else hashByte AND 0xf)
      in (if c > CHR ''9'' \<and> hashByte' > 7 then char_of_byte (byte_of c - 32) else c)
         # checksum_loop hash (i + 1) buf)"

definition checksumHex :: "(string \<Rightarrow> byte list) \<Rightarrow> Address \<Rightarrow> string" where
  "checksumHex keccak a =
     (let buf = hex a; hash = keccak (drop 2 buf)
      in take 2 buf @ checksum_loop hash 2 (drop 2 buf))"

definition Hex :: "(string \<Rightarrow> byte list) \<Rightarrow> Address \<Rightarrow> string" where
  "Hex keccak a = checksumHex keccak a"

text \<open>
  \<open>slices.IsSorted\<close>: no element is smaller than the one before it. \<open>slices.Sort\<close> leaves
  the elements in ascending order; on strings, where equal elements are the same value,
  that is the one ascending arrangement of the input.
\<close>

fun IsSorted :: "string list \<Rightarrow> bool" where
  "IsSorted (x0 # x1 # x) = (\<not> x1 < x0 \<and> IsSorted (x1 # x))"
| "IsSorted x = True"

definition slices_Sort :: "string list \<Rightarrow> string list" where
  "slices_Sort x = sort x"

subsection \<open>The address validator of the repository\<close>

datatype addr_error = ErrInvalidAddress string

text \<open>
  Modelled from the spec: \<open>types.ValidateAddress\<close> (package \<open>github.com/cosmos/evm/types\<close>)
  is not among the source files. The spec gives its contract: "fails if \<open>s\<close> is not a
  syntactically valid chain address". The functions below take the validator as a
  parameter \<open>validateAddress\<close>, \<open>None\<close> being the nil error; this definition, the
  hexadecimal address syntax of \<open>IsHexAddress\<close>, is the instance used on concrete inputs.
\<close>

definition ValidateAddress :: "string \<Rightarrow> addr_error option" where
  "ValidateAddress address =
     (if \<not> IsHexAddress address then Some (ErrInvalidAddress address) else None)"

subsection \<open>Params and its validation\<close>

record Params =
  EnableErc20 :: bool
  NativePrecompiles :: "string list"
  DynamicPrecompiles :: "string list"
  PermissionlessRegistration :: bool

text \<open>The values an \<open>interface{}\<close> argument of the validators can hold.\<close>

datatype any = AnyBool bool | AnyStrings "string list" | AnyAddresses "Address list" | AnyOther

text \<open>
  The errors, one constructor for each \<open>fmt.Errorf\<close> message of the file:
  "invalid parameter type", "invalid precompile slice type", "invalid precompile",
  "precompiles need to be sorted" and "duplicate precompile".
\<close>

datatype error =
    InvalidParameterType any
  | InvalidSliceType any
  | InvalidAddress string
  | UnsortedPrecompiles "string list"
  | DuplicatePrecompile Address

text \<open>The package variables \<open>DefaultNativePrecompiles\<close> and \<open>DefaultDynamicPrecompiles\<close>.\<close>

record Globals =
  DefaultNativePrecompiles :: "string list"
  DefaultDynamicPrecompiles :: "string list"

text \<open>Both are declared without a value: nil slices.\<close>

definition declared_Globals :: Globals where
  "declared_Globals = \<lparr>DefaultNativePrecompiles = [], DefaultDynamicPrecompiles = []\<rparr>"

definition NewParams :: "bool \<Rightarrow> string list \<Rightarrow> string list \<Rightarrow> bool \<Rightarrow> Params" where
  "NewParams enableErc20 nativePrecompiles dynamicPrecompiles permissionlessRegistration =
     \<lparr>EnableErc20 = enableErc20,
      NativePrecompiles = slices_Sort nativePrecompiles,
      DynamicPrecompiles = slices_Sort dynamicPrecompiles,
      PermissionlessRegistration = permissionlessRegistration\<rparr>"

definition DefaultParams :: "Globals \<Rightarrow> Params" where
  "DefaultParams g =
     \<lparr>EnableErc20 = True,
      NativePrecompiles = DefaultNativePrecompiles g,
      DynamicPrecompiles = DefaultDynamicPrecompiles g,
      PermissionlessRegistration = True\<rparr>"

fun ValidateBool :: "any \<Rightarrow> error option" where
  "ValidateBool (AnyBool b) = None"
| "ValidateBool i = Some (InvalidParameterType i)"

text \<open>The loop of \<open>ValidatePrecompiles\<close> over the strings, \<open>precAddrs\<close> being built up.\<close>

fun precompiles_loop ::
  "(string \<Rightarrow> 'e option) \<Rightarrow> string list \<Rightarrow> Address list \<Rightarrow> error + Address list" where
  "precompiles_loop validateAddress [] precAddrs = Inr precAddrs"
| "precompiles_loop validateAddress (precompile # rest) precAddrs =
     (case validateAddress precompile of
        Some err \<Rightarrow> Inl (InvalidAddress precompile)
      | None \<Rightarrow>
          precompiles_loop validateAddress rest (precAddrs @ [HexToAddress precompile]))"

fun ValidatePrecompiles :: "(string \<Rightarrow> 'e option) \<Rightarrow> any \<Rightarrow> error + Address list" where
  "ValidatePrecompiles validateAddress (AnyStrings precompiles) =
     (case precompiles_loop validateAddress precompiles [] of
        Inl err \<Rightarrow> Inl err
      | Inr precAddrs \<Rightarrow>
          if \<not> IsSorted precompiles then Inl (UnsortedPrecompiles precompiles)
          else Inr precAddrs)"
| "ValidatePrecompiles validateAddress i = Inl (InvalidSliceType i)"

text \<open>The loop of \<open>validatePrecompilesUniqueness\<close>, with the map \<open>seenPrecompiles\<close>.\<close>

fun uniqueness_loop ::
  "(string \<Rightarrow> byte list) \<Rightarrow> (string \<rightharpoonup> unit) \<Rightarrow> Address list \<Rightarrow> error option" where
  "uniqueness_loop keccak seenPrecompiles [] = None"
| "uniqueness_loop keccak seenPrecompiles (precompile # rest) =
     (if seenPrecompiles (Hex keccak precompile) \<noteq> None
      then Some (DuplicatePrecompile precompile)
      else uniqueness_loop keccak (seenPrecompiles(Hex keccak precompile \<mapsto> ())) rest)"

fun validatePrecompilesUniqueness :: "(string \<Rightarrow> byte list) \<Rightarrow> any \<Rightarrow> error option" where
  "validatePrecompilesUniqueness keccak (AnyAddresses precompiles) =
     uniqueness_loop keccak Map.empty precompiles"
| "validatePrecompilesUniqueness keccak i = Some (InvalidSliceType i)"

definition Validate ::
  "(string \<Rightarrow> 'e option) \<Rightarrow> (string \<Rightarrow> byte list) \<Rightarrow> Params \<Rightarrow> error option" where
  "Validate validateAddress keccak p =
     (case ValidateBool (AnyBool (EnableErc20 p)) of
        Some err \<Rightarrow> Some err
      | None \<Rightarrow>
     (case ValidatePrecompiles validateAddress (AnyStrings (NativePrecompiles p)) of
        Inl err \<Rightarrow> Some err
      | Inr npAddrs \<Rightarrow>
     (case ValidatePrecompiles validateAddress (AnyStrings (DynamicPrecompiles p)) of
        Inl err \<Rightarrow> Some err
      | Inr dpAddrs \<Rightarrow>
     (case ValidateBool (AnyBool (PermissionlessRegistration p)) of
        Some err \<Rightarrow> Some err
      | None \<Rightarrow>
          validatePrecompilesUniqueness keccak (AnyAddresses (dpAddrs @ npAddrs))))))"

subsection \<open>Membership predicates\<close>

fun isAddrIncluded :: "Address \<Rightarrow> string list \<Rightarrow> bool" where
  "isAddrIncluded addr [] = False"
| "isAddrIncluded addr (sa # strAddrs) =
     (if addr = HexToAddress sa then True else isAddrIncluded addr strAddrs)"

definition IsNativePrecompile :: "Params \<Rightarrow> Address \<Rightarrow> bool" where
  "IsNativePrecompile p addr = isAddrIncluded addr (NativePrecompiles p)"

definition IsDynamicPrecompile :: "Params \<Rightarrow> Address \<Rightarrow> bool" where
  "IsDynamicPrecompile p addr = isAddrIncluded addr (DynamicPrecompiles p)"

subsection \<open>The membership predicates with the run-time checks of Go\<close>

text \<open>
  An index expression \<open>s[i]\<close> panics unless \<open>0 \<le> i < len(s)\<close>, a slice expression
  \<open>s[i:]\<close> unless \<open>0 \<le> i \<le> len(s)\<close>. Here such a panic is the value \<open>None\<close>, and the
  functions on the path of \<open>isAddrIncluded\<close> are written once more with every index and
  slice expression of their source checked: a function that returns \<open>Some\<close> on every
  input never panics. Integers of the index arithmetic are \<^typ>\<open>int\<close>, as \<open>len(b) - 20\<close>
  may be negative.
\<close>

definition go_index :: "'a list \<Rightarrow> int \<Rightarrow> 'a option" where
  "go_index s i = (if 0 \<le> i \<and> i < int (length s) then Some (s ! nat i) else None)"

definition go_slice_from :: "'a list \<Rightarrow> int \<Rightarrow> 'a list option" where
  "go_slice_from s i = (if 0 \<le> i \<and> i \<le> int (length s) then Some (drop (nat i) s) else None)"

text \<open>The builtin \<open>copy(dst, src)\<close>, which never panics: the new contents of \<open>dst\<close>.\<close>

definition go_copy :: "'a list \<Rightarrow> 'a list \<Rightarrow> 'a list" where
  "go_copy dst src =
     (let n = min (length dst) (length src) in take n src @ drop n dst)"

text \<open>
  \<open>has0xPrefix\<close>:
  \<open>len(str) >= 2 && str[0] == '0' && (str[1] == 'x' || str[1] == 'X')\<close>, the operators
  evaluating their right operand only when it is needed.
\<close>

definition has0xPrefix_checked :: "string \<Rightarrow> bool option" where
  "has0xPrefix_checked str =
     (if length str \<ge> 2 then
        (case go_index str 0 of
           None \<Rightarrow> None
         | Some c0 \<Rightarrow>
             if c0 = CHR ''0'' then
               (case go_index str 1 of
                  None \<Rightarrow> None
                | Some c1 \<Rightarrow>
                    if c1 = CHR ''x'' then Some True
                    else (case go_index str 1 of
                            None \<Rightarrow> None
                          | Some c1' \<Rightarrow> Some (c1' = CHR ''X'')))
             else Some False)
      else Some False)"

text \<open>
  The loop of \<open>hex.Decode\<close>, as \<open>hex.DecodeString\<close> runs it: \<open>j\<close> starts at 1 and goes up
  by 2, \<open>src[j-1]\<close> and \<open>src[j]\<close> are read, and the byte is written to \<open>dst[i]\<close>, where
  \<open>dst\<close> has \<open>len(src) / 2\<close> bytes. The argument \<open>dst\<close> of the model is the part written
  so far, \<open>i\<close> its length. The loop stops at the first character that is not a digit, and
  \<open>Hex2Bytes\<close> drops the error.
\<close>

function Decode_checked :: "string \<Rightarrow> nat \<Rightarrow> byte list \<Rightarrow> byte list option" where
  "Decode_checked src j dst =
     (if j < length src then
        (case go_index src (int j - 1) of
           None \<Rightarrow> None
         | Some p \<Rightarrow>
        (case go_index src (int j) of
           None \<Rightarrow> None
         | Some q \<Rightarrow>
        (case fromHexChar p of
           None \<Rightarrow> Some dst
         | Some a \<Rightarrow>
        (case fromHexChar q of
           None \<Rightarrow> Some dst
         | Some b \<Rightarrow>
             if length dst < length src div 2
             then Decode_checked src (j + 2) (dst @ [push_bit 4 a OR b])
             else None))))
      else Some dst)"
  by pat_completeness auto
termination
  by (relation "measure (\<lambda>(src, j, dst). length src - j)") auto

definition Hex2Bytes_checked :: "string \<Rightarrow> byte list option" where
  "Hex2Bytes_checked str = Decode_checked str 1 []"

definition FromHex_checked :: "string \<Rightarrow> byte list option" where
  "FromHex_checked s =
     (case has0xPrefix_checked s of
        None \<Rightarrow> None
      | Some pre \<Rightarrow>
          (case (if pre then go_slice_from s 2 else Some s) of
             None \<Rightarrow> None
           | Some s1 \<Rightarrow>
               (let s2 = (if length s1 mod 2 = 1 then CHR ''0'' # s1 else s1)
                in Hex2Bytes_checked s2)))"

text \<open>
  \<open>Address.SetBytes\<close> on the zero address \<open>a\<close>, as \<open>BytesToAddress\<close> calls it:
  \<open>if len(b) > len(a) { b = b[len(b)-AddressLength:] }\<close>, then
  \<open>copy(a[AddressLength-len(b):], b)\<close>.
\<close>

definition BytesToAddress_checked :: "byte list \<Rightarrow> Address option" where
  "BytesToAddress_checked b =
     (let a = replicate AddressLength 0 in
      (case (if length b > length a
             then go_slice_from b (int (length b) - int AddressLength) else Some b) of
         None \<Rightarrow> None
       | Some b' \<Rightarrow>
           (case go_slice_from a (int AddressLength - int (length b')) of
              None \<Rightarrow> None
            | Some tail \<Rightarrow> Some (take (length a - length tail) a @ go_copy tail b'))))"

definition HexToAddress_checked :: "string \<Rightarrow> Address option" where
  "HexToAddress_checked s =
     (case FromHex_checked s of None \<Rightarrow> None | Some b \<Rightarrow> BytesToAddress_checked b)"

fun isAddrIncluded_checked :: "Address \<Rightarrow> string list \<Rightarrow> bool option" where
  "isAddrIncluded_checked addr [] = Some False"
| "isAddrIncluded_checked addr (sa # strAddrs) =
     (case HexToAddress_checked sa of
        None \<Rightarrow> None
      | Some cmnAddr \<Rightarrow>
          if addr = cmnAddr then Some True else isAddrIncluded_checked addr strAddrs)"

definition IsNativePrecompile_checked :: "Params \<Rightarrow> Address \<Rightarrow> bool option" where
  "IsNativePrecompile_checked p addr = isAddrIncluded_checked addr (NativePrecompiles p)"

definition IsDynamicPrecompile_checked :: "Params \<Rightarrow> Address \<Rightarrow> bool option" where
  "IsDynamicPrecompile_checked p addr = isAddrIncluded_checked addr (DynamicPrecompiles p)"

text \<open>
  Lower case for the letters \<open>A\<close> to \<open>F\<close>. It is not part of the program: it undoes the
  upper-casing of \<open>checksum_loop\<close> in the proof that \<open>Hex\<close> is injective.
\<close>

definition to_lower :: "char \<Rightarrow> char" where
  "to_lower c = (if CHR ''A'' \<le> c \<and> c \<le> CHR ''F'' then char_of_byte (byte_of c + 32) else c)"

section \<open>Properties of the library functions\<close>

subsection \<open>The checksummed rendering determines the address\<close>

lemma distinct_hextable: "distinct hextable"
  by (simp add: hextable_def)

lemma length_hextable: "length hextable = 16"
  by (simp add: hextable_def)

lemma hi_nibble_less: "unat (drop_bit 4 (v::byte)) < 16"
proof -
  have "unat (drop_bit 4 v) = unat v div 2 ^ 4"
    by (simp add: drop_bit_eq_div unat_div)
  moreover have "unat v < 256"
    using unsigned_less [of v, where 'a = nat] by simp
  ultimately show ?thesis by simp
qed

lemma lo_nibble_eq: "(v::byte) AND 0x0f = take_bit 4 v"
  by (simp add: take_bit_eq_mask mask_eq_exp_minus_1)

lemma lo_nibble_less: "unat ((v::byte) AND 0x0f) < 16"
proof -
  have "unat (take_bit 4 v) < 2 ^ 4"
    by (simp only: unsigned_take_bit_eq take_bit_nat_less_exp)
  then show ?thesis by (simp add: lo_nibble_eq)
qed

lemma byte_from_nibbles:
  assumes "drop_bit 4 (v::byte) = drop_bit 4 w" and "v AND 0x0f = w AND 0x0f"
  shows "v = w"
proof -
  have "push_bit 4 (drop_bit 4 v) + take_bit 4 v = push_bit 4 (drop_bit 4 w) + take_bit 4 w"
    using assms by (simp add: lo_nibble_eq)
  then show ?thesis by (simp only: bits_ident)
qed

lemma hextable_nth_inj:
  "n < 16 \<Longrightarrow> m < 16 \<Longrightarrow> hextable ! n = hextable ! m \<Longrightarrow> n = m"
  using distinct_hextable by (simp add: nth_eq_iff_index_eq length_hextable)

lemma hex_Encode_inj: "hex_Encode a = hex_Encode b \<Longrightarrow> a = b"
proof (induction a arbitrary: b)
  case Nil
  then show ?case by (cases b) simp_all
next
  case (Cons v a)
  then obtain w b' where b: "b = w # b'" by (cases b) simp_all
  from Cons.prems have hi: "hextable ! unat (drop_bit 4 v) = hextable ! unat (drop_bit 4 w)"
    and lo: "hextable ! unat (v AND 0x0f) = hextable ! unat (w AND 0x0f)"
    and rest: "hex_Encode a = hex_Encode b'"
    unfolding b by (simp_all only: hex_Encode.simps list.inject)
  from hi have "unat (drop_bit 4 v) = unat (drop_bit 4 w)"
    by (rule hextable_nth_inj [OF hi_nibble_less hi_nibble_less])
  then have hi': "drop_bit 4 v = drop_bit 4 w"
    by (simp only: word_unat_eq_iff)
  from lo have "unat (v AND 0x0f) = unat (w AND 0x0f)"
    by (rule hextable_nth_inj [OF lo_nibble_less lo_nibble_less])
  then have lo': "v AND 0x0f = w AND 0x0f"
    by (simp only: word_unat_eq_iff)
  have "v = w"
    using hi' lo' by (rule byte_from_nibbles)
  with Cons.IH [OF rest] b show ?case by simp
qed

lemma set_hex_Encode: "set (hex_Encode a) \<subseteq> set hextable"
proof (induction a)
  case Nil
  then show ?case by simp
next
  case (Cons v a)
  have "hextable ! unat (drop_bit 4 v) \<in> set hextable"
    by (rule nth_mem) (simp add: length_hextable hi_nibble_less)
  moreover have "hextable ! unat (v AND 0x0f) \<in> set hextable"
    by (rule nth_mem) (simp add: length_hextable lo_nibble_less)
  ultimately show ?case using Cons.IH by simp
qed

lemma to_lower_digit:
  "c \<in> set hextable \<Longrightarrow> to_lower c = c"
  by (auto simp add: hextable_def to_lower_def)

lemma to_lower_upper_cases:
  "to_lower (char_of_byte (byte_of CHR ''a'' - 32)) = CHR ''a''"
  "to_lower (char_of_byte (byte_of CHR ''b'' - 32)) = CHR ''b''"
  "to_lower (char_of_byte (byte_of CHR ''c'' - 32)) = CHR ''c''"
  "to_lower (char_of_byte (byte_of CHR ''d'' - 32)) = CHR ''d''"
  "to_lower (char_of_byte (byte_of CHR ''e'' - 32)) = CHR ''e''"
  "to_lower (char_of_byte (byte_of CHR ''f'' - 32)) = CHR ''f''"
  by (simp_all add: to_lower_def char_of_byte_def byte_of_def less_eq_char_def char_of_eq_iff)

lemma to_lower_upper:
  "c \<in> set hextable \<Longrightarrow> c > CHR ''9'' \<Longrightarrow> to_lower (char_of_byte (byte_of c - 32)) = c"
  unfolding hextable_def
  by (auto simp only: set_simps insert_iff empty_iff to_lower_upper_cases) simp_all

lemma to_lower_checksum_loop:
  "set buf \<subseteq> set hextable \<Longrightarrow> map to_lower (checksum_loop hash i buf) = buf"
proof (induction buf arbitrary: i)
  case Nil
  then show ?case by simp
next
  case (Cons c buf)
  from Cons.prems have c: "c \<in> set hextable" and buf: "set buf \<subseteq> set hextable"
    by simp_all
  have rest: "map to_lower (checksum_loop hash (i + 1) buf) = buf"
    using buf by (rule Cons.IH)
  show ?case
  proof (cases "c > CHR ''9''")
    case True
    show ?thesis
      using rest to_lower_upper [OF c True] to_lower_digit [OF c]
      by (simp only: checksum_loop.simps Let_def list.map split: if_splits) simp
  next
    case False
    then show ?thesis
      using rest to_lower_digit [OF c]
      by (simp only: checksum_loop.simps Let_def list.map split: if_splits) simp
  qed
qed

lemma Hex_inj: "Hex keccak a = Hex keccak b \<Longrightarrow> a = b"
proof -
  assume "Hex keccak a = Hex keccak b"
  then have "checksum_loop (keccak (hex_Encode a)) 2 (hex_Encode a)
      = checksum_loop (keccak (hex_Encode b)) 2 (hex_Encode b)"
    by (simp add: Hex_def checksumHex_def hex_def)
  then have "map to_lower (checksum_loop (keccak (hex_Encode a)) 2 (hex_Encode a))
      = map to_lower (checksum_loop (keccak (hex_Encode b)) 2 (hex_Encode b))"
    by simp
  then have "hex_Encode a = hex_Encode b"
    by (simp only: to_lower_checksum_loop [OF set_hex_Encode])
  then show ?thesis by (rule hex_Encode_inj)
qed

lemma Hex_eq_iff: "Hex keccak a = Hex keccak b \<longleftrightarrow> a = b"
  by (auto dest: Hex_inj)

subsection \<open>Canonical addresses\<close>

lemma length_BytesToAddress: "length (BytesToAddress b) = AddressLength"
  by (simp add: BytesToAddress_def Let_def)

lemma length_HexToAddress: "length (HexToAddress s) = AddressLength"
  by (simp only: HexToAddress_def length_BytesToAddress)

subsection \<open>The validators\<close>

lemma IsSorted_iff_sorted: "IsSorted x = sorted x"
  by (induction x rule: IsSorted.induct) (simp_all only: IsSorted.simps sorted2 sorted1 sorted0 not_less)

lemma precompiles_loop_valid:
  "\<forall>s\<in>set xs. va s = None \<Longrightarrow>
   precompiles_loop va xs acc = Inr (acc @ map HexToAddress xs)"
  by (induction xs arbitrary: acc) simp_all

lemma precompiles_loop_invalid:
  "\<forall>s\<in>set pre. va s = None \<Longrightarrow> va bad \<noteq> None \<Longrightarrow>
   precompiles_loop va (pre @ bad # post) acc = Inl (InvalidAddress bad)"
  by (induction pre arbitrary: acc) auto

lemma precompiles_loop_Inr:
  "precompiles_loop va xs acc = Inr r \<Longrightarrow> \<forall>s\<in>set xs. va s = None"
  by (induction xs arbitrary: acc) (auto split: option.splits)

lemma ValidatePrecompiles_Inr_iff:
  "ValidatePrecompiles va (AnyStrings xs) = Inr r \<longleftrightarrow>
   (\<forall>s\<in>set xs. va s = None) \<and> sorted xs \<and> r = map HexToAddress xs"
proof (cases "\<forall>s\<in>set xs. va s = None")
  case True
  then show ?thesis
    by (auto simp add: precompiles_loop_valid IsSorted_iff_sorted)
next
  case False
  then have "\<And>r. precompiles_loop va xs [] \<noteq> Inr r"
    using precompiles_loop_Inr by blast
  with False show ?thesis
    by (auto split: sum.splits)
qed

lemma uniqueness_loop_None_iff:
  "uniqueness_loop kc seen as = None \<longleftrightarrow>
   distinct as \<and> (\<forall>a\<in>set as. seen (Hex kc a) = None)"
proof (induction as arbitrary: seen)
  case Nil
  then show ?case by simp
next
  case (Cons a as)
  show ?case
  proof (cases "seen (Hex kc a) = None")
    case True
    let ?seen' = "seen(Hex kc a \<mapsto> ())"
    have fresh: "(\<forall>b\<in>set as. ?seen' (Hex kc b) = None)
        \<longleftrightarrow> a \<notin> set as \<and> (\<forall>b\<in>set as. seen (Hex kc b) = None)"
      by (auto dest: Hex_inj)
    have "uniqueness_loop kc seen (a # as) = uniqueness_loop kc ?seen' as"
      using True by simp
    then have "uniqueness_loop kc seen (a # as) = None
        \<longleftrightarrow> distinct as \<and> (\<forall>b\<in>set as. ?seen' (Hex kc b) = None)"
      by (simp only: Cons.IH)
    also have "\<dots> \<longleftrightarrow> distinct as \<and> a \<notin> set as \<and> (\<forall>b\<in>set as. seen (Hex kc b) = None)"
      by (simp only: fresh)
    also have "\<dots> \<longleftrightarrow> distinct (a # as) \<and> (\<forall>b\<in>set (a # as). seen (Hex kc b) = None)"
      using True by auto
    finally show ?thesis .
  next
    case False
    then show ?thesis by simp
  qed
qed

lemma uniqueness_loop_first_repeat:
  "distinct pre \<Longrightarrow> \<forall>x\<in>set pre. seen (Hex kc x) = None \<Longrightarrow>
   a \<in> set pre \<or> seen (Hex kc a) \<noteq> None \<Longrightarrow>
   uniqueness_loop kc seen (pre @ a # post) = Some (DuplicatePrecompile a)"
proof (induction pre arbitrary: seen)
  case Nil
  then show ?case by simp
next
  case (Cons x pre)
  have "uniqueness_loop kc (seen(Hex kc x \<mapsto> ())) (pre @ a # post) = Some (DuplicatePrecompile a)"
  proof (rule Cons.IH)
    show "distinct pre" using Cons.prems by simp
    show "\<forall>y\<in>set pre. (seen(Hex kc x \<mapsto> ())) (Hex kc y) = None"
      using Cons.prems by (auto dest: Hex_inj)
    show "a \<in> set pre \<or> (seen(Hex kc x \<mapsto> ())) (Hex kc a) \<noteq> None"
      using Cons.prems by auto
  qed
  with Cons.prems show ?case by simp
qed

lemma isAddrIncluded_iff: "isAddrIncluded addr strAddrs \<longleftrightarrow> addr \<in> HexToAddress ` set strAddrs"
  by (induction strAddrs) auto

lemma distinct_map_Hex: "distinct (map (\<lambda>s. Hex kc (f s)) xs) = distinct (map f xs)"
proof -
  have "inj (Hex kc)" by (rule injI) (rule Hex_inj)
  then have "distinct (map (Hex kc) (map f xs)) = distinct (map f xs)"
    by (metis distinct_map inj_on_subset subset_UNIV)
  then show ?thesis by (simp add: comp_def)
qed

lemma Validate_None_iff:
  "Validate va kc p = None \<longleftrightarrow>
   (\<forall>s\<in>set (NativePrecompiles p). va s = None) \<and> sorted (NativePrecompiles p) \<and>
   (\<forall>s\<in>set (DynamicPrecompiles p). va s = None) \<and> sorted (DynamicPrecompiles p) \<and>
   distinct (map HexToAddress (DynamicPrecompiles p @ NativePrecompiles p))"
proof (cases "ValidatePrecompiles va (AnyStrings (NativePrecompiles p))")
  case (Inl e)
  then have "Validate va kc p \<noteq> None" by (simp add: Validate_def)
  moreover have "\<not> ((\<forall>s\<in>set (NativePrecompiles p). va s = None) \<and> sorted (NativePrecompiles p))"
    using Inl ValidatePrecompiles_Inr_iff [of va "NativePrecompiles p" "map HexToAddress (NativePrecompiles p)"]
    by auto
  ultimately show ?thesis by blast
next
  case np: (Inr npAddrs)
  show ?thesis
  proof (cases "ValidatePrecompiles va (AnyStrings (DynamicPrecompiles p))")
    case (Inl e)
    then have "Validate va kc p \<noteq> None" using np by (simp add: Validate_def)
    moreover have "\<not> ((\<forall>s\<in>set (DynamicPrecompiles p). va s = None) \<and> sorted (DynamicPrecompiles p))"
      using Inl ValidatePrecompiles_Inr_iff [of va "DynamicPrecompiles p" "map HexToAddress (DynamicPrecompiles p)"]
      by auto
    ultimately show ?thesis by blast
  next
    case dp: (Inr dpAddrs)
    from np dp have "Validate va kc p = uniqueness_loop kc Map.empty (dpAddrs @ npAddrs)"
      by (simp add: Validate_def)
    moreover from np have "(\<forall>s\<in>set (NativePrecompiles p). va s = None) \<and> sorted (NativePrecompiles p)
        \<and> npAddrs = map HexToAddress (NativePrecompiles p)"
      by (rule ValidatePrecompiles_Inr_iff [THEN iffD1])
    moreover from dp have "(\<forall>s\<in>set (DynamicPrecompiles p). va s = None) \<and> sorted (DynamicPrecompiles p)
        \<and> dpAddrs = map HexToAddress (DynamicPrecompiles p)"
      by (rule ValidatePrecompiles_Inr_iff [THEN iffD1])
    ultimately show ?thesis
      by (simp add: uniqueness_loop_None_iff)
  qed
qed

lemma Validate_both_valid:
  assumes "ValidatePrecompiles va (AnyStrings (NativePrecompiles p)) = Inr npAddrs"
      and "ValidatePrecompiles va (AnyStrings (DynamicPrecompiles p)) = Inr dpAddrs"
  shows "Validate va kc p = uniqueness_loop kc Map.empty (dpAddrs @ npAddrs)"
  using assms by (simp add: Validate_def)

subsection \<open>The run-time checks never fail\<close>

lemma has0xPrefix_checked_eq: "has0xPrefix_checked str = Some (has0xPrefix str)"
proof (cases str)
  case Nil
  then show ?thesis by (simp add: has0xPrefix_checked_def)
next
  case outer: (Cons c0 rest)
  show ?thesis
  proof (cases rest)
    case Nil
    with outer show ?thesis by (simp add: has0xPrefix_checked_def)
  next
    case (Cons c1 rest')
    with outer show ?thesis by (simp add: has0xPrefix_checked_def go_index_def)
  qed
qed

lemma Hex2Bytes_short: "length src \<le> 1 \<Longrightarrow> Hex2Bytes src = []"
  by (cases src rule: Hex2Bytes.cases) simp_all

lemma Decode_checked_eq:
  "j = 2 * length dst + 1 \<Longrightarrow>
   Decode_checked src j dst = Some (dst @ Hex2Bytes (drop (j - 1) src))"
proof (induction src j dst rule: Decode_checked.induct)
  case (1 src j dst)
  show ?case
  proof (cases "j < length src")
    case False
    then have "Hex2Bytes (drop (j - 1) src) = []"
      by (intro Hex2Bytes_short) simp
    with False show ?thesis
      by (subst Decode_checked.simps) simp
  next
    case True
    from "1.prems" have j1: "1 \<le> j" by simp
    let ?p = "src ! (j - 1)" and ?q = "src ! j"
    have split: "drop (j - 1) src = ?p # ?q # drop (j + 1) src"
    proof -
      have "drop (j - 1) src = ?p # drop (Suc (j - 1)) src"
        using True j1 by (intro Cons_nth_drop_Suc [symmetric]) simp
      also have "drop (Suc (j - 1)) src = drop j src" using j1 by simp
      also have "drop j src = ?q # drop (Suc j) src"
        using True by (intro Cons_nth_drop_Suc [symmetric])
      finally show ?thesis by simp
    qed
    have p: "go_index src (int j - 1) = Some ?p"
      using True j1 by (simp add: go_index_def nat_diff_distrib')
    have q: "go_index src (int j) = Some ?q"
      using True by (simp add: go_index_def)
    have room: "length dst < length src div 2"
      using True "1.prems" by simp
    show ?thesis
    proof (cases "fromHexChar ?p")
      case None
      then show ?thesis
        using True p q split by (subst Decode_checked.simps) simp
    next
      case a: (Some a)
      show ?thesis
      proof (cases "fromHexChar ?q")
        case None
        then show ?thesis
          using True p q a split by (subst Decode_checked.simps) simp
      next
        case b: (Some b)
        have "Decode_checked src (j + 2) (dst @ [push_bit 4 a OR b])
            = Some ((dst @ [push_bit 4 a OR b]) @ Hex2Bytes (drop (j + 2 - 1) src))"
          using True p q a b room "1.prems" by (intro "1.IH") simp_all
        then show ?thesis
          using True p q a b room split by (subst Decode_checked.simps) simp
      qed
    qed
  qed
qed

lemma Hex2Bytes_checked_eq: "Hex2Bytes_checked str = Some (Hex2Bytes str)"
  using Decode_checked_eq [of 1 "[]" str] by (simp add: Hex2Bytes_checked_def)

lemma FromHex_checked_eq: "FromHex_checked s = Some (FromHex s)"
proof -
  have "has0xPrefix s \<Longrightarrow> 2 \<le> length s"
    by (cases s rule: has0xPrefix.cases) simp_all
  then show ?thesis
    by (simp add: FromHex_checked_def FromHex_def has0xPrefix_checked_eq go_slice_from_def
      Hex2Bytes_checked_eq Let_def)
qed

lemma BytesToAddress_checked_eq: "BytesToAddress_checked b = Some (BytesToAddress b)"
proof -
  have diff: "nat (int m - int n) = m - n" for m n :: nat
    by simp
  show ?thesis
    by (simp add: BytesToAddress_checked_def BytesToAddress_def go_slice_from_def go_copy_def
      Let_def diff)
qed

lemma HexToAddress_checked_eq: "HexToAddress_checked s = Some (HexToAddress s)"
  by (simp add: HexToAddress_checked_def HexToAddress_def FromHex_checked_eq
    BytesToAddress_checked_eq)

lemma isAddrIncluded_checked_eq:
  "isAddrIncluded_checked addr strAddrs = Some (isAddrIncluded addr strAddrs)"
  by (induction strAddrs) (simp_all add: HexToAddress_checked_eq)

section \<open>The claims\<close>

subsection \<open>Validity of a parameter set\<close>

text \<open>
  Claim C1. \<open>Validate\<close> returns nil exactly when the invariants of the data model hold:
  the validator accepts every string of both lists, each list is in strictly ascending
  order of its strings, and the canonical checksummed addresses of the two lists together
  have no duplicate. This holds for every address validator and every hash function.
\<close>

theorem Validate_nil_iff_invariants:
  "Validate validateAddress keccak p = None \<longleftrightarrow>
     (\<forall>s \<in> set (NativePrecompiles p) \<union> set (DynamicPrecompiles p). validateAddress s = None)
     \<and> sorted_wrt (<) (NativePrecompiles p)
     \<and> sorted_wrt (<) (DynamicPrecompiles p)
     \<and> distinct (map (\<lambda>s. Hex keccak (HexToAddress s))
          (NativePrecompiles p @ DynamicPrecompiles p))"
proof -
  let ?N = "NativePrecompiles p" and ?D = "DynamicPrecompiles p"
  have d: "distinct (map HexToAddress (?N @ ?D)) = distinct (map HexToAddress (?D @ ?N))"
    by auto
  have n: "distinct (map HexToAddress (?D @ ?N)) \<Longrightarrow> distinct ?N \<and> distinct ?D"
    by (auto simp add: distinct_map)
  show ?thesis
    unfolding Validate_None_iff distinct_map_Hex strict_sorted_iff d
    using n by blast
qed

theorem Validate_nil_iff_invariants_witness:
  "Validate ValidateAddress (\<lambda>_. replicate 32 0)
     \<lparr>EnableErc20 = True,
      NativePrecompiles = [''0x0000000000000000000000000000000000000001''],
      DynamicPrecompiles = [''0x0000000000000000000000000000000000000002''],
      PermissionlessRegistration = False\<rparr> = None"
  by (rule iffD2 [OF Validate_nil_iff_invariants])
    (simp add: ValidateAddress_def IsHexAddress_def isHex_def isHexCharacter_def
      AddressLength_def Hex_eq_iff HexToAddress_def FromHex_def BytesToAddress_def
      fromHexChar_def byte_of_def)

subsection \<open>The precompile list validator\<close>

text \<open>
  Claim C2. A list of well-formed addresses whose strings are not in strictly ascending
  order is to fail with \<open>UnsortedPrecompiles\<close>, a list with two equal neighbours among
  them; the comment of \<open>ValidatePrecompiles\<close> says that it checks that the addresses are
  valid and unique. The code does not do so: on the list that holds the well-formed
  address \<open>0x0000000000000000000000000000000000000001\<close> twice, which is not strictly
  ascending, it returns the two addresses and no error, \<open>slices.IsSorted\<close> accepting
  equal neighbours.
\<close>

theorem ValidatePrecompiles_equal_neighbours_accepted:
  "ValidateAddress ''0x0000000000000000000000000000000000000001'' = None
   \<and> \<not> sorted_wrt (<) [''0x0000000000000000000000000000000000000001'',
        ''0x0000000000000000000000000000000000000001'']
   \<and> ValidatePrecompiles ValidateAddress
        (AnyStrings [''0x0000000000000000000000000000000000000001'',
          ''0x0000000000000000000000000000000000000001''])
      = Inr [HexToAddress ''0x0000000000000000000000000000000000000001'',
          HexToAddress ''0x0000000000000000000000000000000000000001'']"
  by (simp add: ValidateAddress_def IsHexAddress_def isHex_def isHexCharacter_def
      AddressLength_def)

text \<open>
  What the code does on the strings that the validator accepts: it fails with
  \<open>UnsortedPrecompiles\<close>, naming the whole list, when some string is smaller than the one
  before it, and returns the canonical addresses in the order of the input otherwise.
\<close>

lemma ValidatePrecompiles_accepted_strings:
  assumes "\<forall>s \<in> set precompiles. validateAddress s = None"
  shows "ValidatePrecompiles validateAddress (AnyStrings precompiles)
      = (if sorted precompiles then Inr (map HexToAddress precompiles)
         else Inl (UnsortedPrecompiles precompiles))"
  using assms by (simp add: precompiles_loop_valid IsSorted_iff_sorted)

text \<open>
  Claim C6. When the validator accepts the strings \<open>pre\<close> and rejects \<open>bad\<close>,
  \<open>ValidatePrecompiles\<close> on \<open>pre @ bad # post\<close> fails with \<open>InvalidAddress bad\<close>, whatever
  \<open>post\<close> holds and whether or not the list is sorted.
\<close>

theorem ValidatePrecompiles_first_invalid:
  assumes "\<forall>s \<in> set pre. validateAddress s = None"
      and "validateAddress bad \<noteq> None"
  shows "ValidatePrecompiles validateAddress (AnyStrings (pre @ bad # post))
      = Inl (InvalidAddress bad)"
  using assms by (simp add: precompiles_loop_invalid)

theorem ValidatePrecompiles_first_invalid_witness:
  "ValidatePrecompiles ValidateAddress
     (AnyStrings [''0x0000000000000000000000000000000000000002'', ''not-an-address'',
       ''0x0000000000000000000000000000000000000001'', ''0xZZ''])
   = Inl (InvalidAddress ''not-an-address'')"
proof -
  have "\<forall>s \<in> set [''0x0000000000000000000000000000000000000002'']. ValidateAddress s = None"
    by (simp add: ValidateAddress_def IsHexAddress_def isHex_def isHexCharacter_def
      AddressLength_def)
  moreover have "ValidateAddress ''not-an-address'' \<noteq> None"
    by (simp add: ValidateAddress_def IsHexAddress_def isHex_def isHexCharacter_def
      AddressLength_def)
  ultimately show ?thesis
    using ValidatePrecompiles_first_invalid
      [of "[''0x0000000000000000000000000000000000000002'']" ValidateAddress "''not-an-address''"
        "[''0x0000000000000000000000000000000000000001'', ''0xZZ'']"]
    by simp
qed

subsection \<open>Duplicates\<close>

text \<open>
  Claim C3. Let both lists pass \<open>ValidatePrecompiles\<close>, and let some canonical address occur
  in both lists or twice in one of them, whatever the casing of the strings. Then
  \<open>Validate\<close> fails with \<open>DuplicatePrecompile\<close>, and the address it names is the one at the
  first repeat of the scan over the dynamic addresses followed by the native ones: the
  addresses before it are distinct, it is one of them, and what comes after it plays no
  part.
\<close>

theorem Validate_duplicate_first_repeat:
  assumes "ValidatePrecompiles validateAddress (AnyStrings (NativePrecompiles p)) = Inr npAddrs"
      and "ValidatePrecompiles validateAddress (AnyStrings (DynamicPrecompiles p)) = Inr dpAddrs"
      and "(\<exists>s \<in> set (NativePrecompiles p). \<exists>t \<in> set (DynamicPrecompiles p).
              HexToAddress s = HexToAddress t)
           \<or> \<not> distinct (map HexToAddress (NativePrecompiles p))
           \<or> \<not> distinct (map HexToAddress (DynamicPrecompiles p))"
  shows "\<exists>pre a post.
           map HexToAddress (DynamicPrecompiles p @ NativePrecompiles p) = pre @ a # post
           \<and> distinct pre \<and> a \<in> set pre
           \<and> Validate validateAddress keccak p = Some (DuplicatePrecompile a)"
proof -
  let ?combined = "map HexToAddress (DynamicPrecompiles p @ NativePrecompiles p)"
  from assms(1) have np: "npAddrs = map HexToAddress (NativePrecompiles p)"
    by (simp only: ValidatePrecompiles_Inr_iff)
  from assms(2) have dp: "dpAddrs = map HexToAddress (DynamicPrecompiles p)"
    by (simp only: ValidatePrecompiles_Inr_iff)
  from assms(3) have "\<not> distinct ?combined"
    by auto
  then have "\<exists>pre a post. a \<in> set pre \<and> distinct pre \<and> ?combined = pre @ a # post"
    by (simp only: not_distinct_conv_prefix)
  then obtain pre a post where split: "?combined = pre @ a # post"
    and pre: "distinct pre" and a: "a \<in> set pre"
    by blast
  have "Validate validateAddress keccak p = uniqueness_loop keccak Map.empty (pre @ a # post)"
    using Validate_both_valid [OF assms(1,2)] np dp split by simp
  also have "\<dots> = Some (DuplicatePrecompile a)"
    using pre a by (intro uniqueness_loop_first_repeat) simp_all
  finally show ?thesis
    using split pre a by blast
qed

theorem Validate_duplicate_first_repeat_witness:
  "Validate ValidateAddress (\<lambda>_. replicate 32 0)
     \<lparr>EnableErc20 = True,
      NativePrecompiles = [''0x000000000000000000000000000000000000000a''],
      DynamicPrecompiles = [''0x000000000000000000000000000000000000000A''],
      PermissionlessRegistration = True\<rparr>
   = Some (DuplicatePrecompile (HexToAddress ''0x000000000000000000000000000000000000000a''))"
proof -
  let ?p = "\<lparr>EnableErc20 = True,
      NativePrecompiles = [''0x000000000000000000000000000000000000000a''],
      DynamicPrecompiles = [''0x000000000000000000000000000000000000000A''],
      PermissionlessRegistration = True\<rparr>"
  let ?a = "HexToAddress ''0x000000000000000000000000000000000000000a''"
  have same: "HexToAddress ''0x000000000000000000000000000000000000000A'' = ?a"
    by (simp add: HexToAddress_def FromHex_def fromHexChar_def byte_of_def)
  have wf: "ValidateAddress ''0x000000000000000000000000000000000000000a'' = None"
    "ValidateAddress ''0x000000000000000000000000000000000000000A'' = None"
    by (simp_all add: ValidateAddress_def IsHexAddress_def isHex_def isHexCharacter_def
      AddressLength_def)
  have n: "ValidatePrecompiles ValidateAddress (AnyStrings (NativePrecompiles ?p)) = Inr [?a]"
    using wf by simp
  have d: "ValidatePrecompiles ValidateAddress (AnyStrings (DynamicPrecompiles ?p)) = Inr [?a]"
    using wf same by simp
  have dup: "(\<exists>s \<in> set (NativePrecompiles ?p). \<exists>t \<in> set (DynamicPrecompiles ?p).
              HexToAddress s = HexToAddress t)
           \<or> \<not> distinct (map HexToAddress (NativePrecompiles ?p))
           \<or> \<not> distinct (map HexToAddress (DynamicPrecompiles ?p))"
    using same by simp
  from Validate_duplicate_first_repeat [OF n d dup, of "\<lambda>_. replicate 32 0"]
  obtain pre a post where split: "map HexToAddress (DynamicPrecompiles ?p @ NativePrecompiles ?p) = pre @ a # post"
    and a: "a \<in> set pre"
    and v: "Validate ValidateAddress (\<lambda>_. replicate 32 0) ?p = Some (DuplicatePrecompile a)"
    by blast
  from split same have "pre @ a # post = [?a, ?a]" by simp
  moreover have "a \<in> set (pre @ a # post)" by simp
  ultimately have "a \<in> set [?a, ?a]" by (simp only:)
  then have "a = ?a" by simp
  with v show ?thesis by simp
qed

subsection \<open>Membership\<close>

text \<open>
  Claim C4. In a parameter set that \<open>Validate\<close> accepts, the canonical address of every
  string of the native list is a native precompile and not a dynamic one, and the
  canonical address of every string of the dynamic list is a dynamic precompile and not a
  native one. The predicates compare addresses, so the casing of the strings plays no
  part.
\<close>

theorem membership_of_valid_Params:
  assumes "Validate validateAddress keccak p = None"
  shows "(\<forall>a \<in> set (NativePrecompiles p).
            IsNativePrecompile p (HexToAddress a) \<and> \<not> IsDynamicPrecompile p (HexToAddress a))
       \<and> (\<forall>a \<in> set (DynamicPrecompiles p).
            IsDynamicPrecompile p (HexToAddress a) \<and> \<not> IsNativePrecompile p (HexToAddress a))"
proof -
  from assms have "distinct (map HexToAddress (DynamicPrecompiles p @ NativePrecompiles p))"
    by (simp only: Validate_None_iff)
  then have "HexToAddress ` set (DynamicPrecompiles p) \<inter> HexToAddress ` set (NativePrecompiles p) = {}"
    by simp
  then show ?thesis
    unfolding IsNativePrecompile_def IsDynamicPrecompile_def isAddrIncluded_iff
    by blast
qed

theorem membership_of_valid_Params_witness:
  "IsNativePrecompile
     \<lparr>EnableErc20 = True,
      NativePrecompiles = [''0x0000000000000000000000000000000000000001''],
      DynamicPrecompiles = [''0x0000000000000000000000000000000000000002''],
      PermissionlessRegistration = False\<rparr>
     (HexToAddress ''0x0000000000000000000000000000000000000001'')
   \<and> \<not> IsDynamicPrecompile
     \<lparr>EnableErc20 = True,
      NativePrecompiles = [''0x0000000000000000000000000000000000000001''],
      DynamicPrecompiles = [''0x0000000000000000000000000000000000000002''],
      PermissionlessRegistration = False\<rparr>
     (HexToAddress ''0x0000000000000000000000000000000000000001'')"
proof -
  let ?p = "\<lparr>EnableErc20 = True,
      NativePrecompiles = [''0x0000000000000000000000000000000000000001''],
      DynamicPrecompiles = [''0x0000000000000000000000000000000000000002''],
      PermissionlessRegistration = False\<rparr>"
  have "Validate ValidateAddress (\<lambda>_. replicate 32 0) ?p = None"
    by (simp add: Validate_None_iff ValidateAddress_def IsHexAddress_def isHex_def
      isHexCharacter_def AddressLength_def HexToAddress_def FromHex_def BytesToAddress_def
      fromHexChar_def byte_of_def)
  from membership_of_valid_Params [OF this] show ?thesis
    by simp
qed

subsection \<open>The order of the checks\<close>

text \<open>
  Claim C5. \<open>Validate\<close> runs its checks in a fixed order and returns the first error. The
  two checks of the boolean fields cannot fail. An error of \<open>ValidatePrecompiles\<close> on the
  native list is the result, whatever the dynamic list holds; when the native list passes,
  an error on the dynamic list is the result; when both pass, the result is that of the
  uniqueness check on the dynamic addresses followed by the native ones.
\<close>

theorem Validate_check_order:
  "ValidateBool (AnyBool (EnableErc20 p)) = None
   \<and> ValidateBool (AnyBool (PermissionlessRegistration p)) = None
   \<and> (\<forall>err. ValidatePrecompiles validateAddress (AnyStrings (NativePrecompiles p)) = Inl err
        \<longrightarrow> Validate validateAddress keccak p = Some err)
   \<and> (\<forall>npAddrs err.
        ValidatePrecompiles validateAddress (AnyStrings (NativePrecompiles p)) = Inr npAddrs
        \<and> ValidatePrecompiles validateAddress (AnyStrings (DynamicPrecompiles p)) = Inl err
        \<longrightarrow> Validate validateAddress keccak p = Some err)
   \<and> (\<forall>npAddrs dpAddrs.
        ValidatePrecompiles validateAddress (AnyStrings (NativePrecompiles p)) = Inr npAddrs
        \<and> ValidatePrecompiles validateAddress (AnyStrings (DynamicPrecompiles p)) = Inr dpAddrs
        \<longrightarrow> Validate validateAddress keccak p
            = validatePrecompilesUniqueness keccak (AnyAddresses (dpAddrs @ npAddrs)))"
  by (simp add: Validate_def del: ValidatePrecompiles.simps)

theorem Validate_check_order_witness:
  "Validate ValidateAddress (\<lambda>_. replicate 32 0)
     \<lparr>EnableErc20 = True,
      NativePrecompiles = [''0xB'', ''0xA''],
      DynamicPrecompiles = [''not-an-address''],
      PermissionlessRegistration = True\<rparr>
   = Some (InvalidAddress ''0xB'')"
proof -
  let ?p = "\<lparr>EnableErc20 = True,
      NativePrecompiles = [''0xB'', ''0xA''],
      DynamicPrecompiles = [''not-an-address''],
      PermissionlessRegistration = True\<rparr>"
  have "ValidatePrecompiles ValidateAddress (AnyStrings (NativePrecompiles ?p))
      = Inl (InvalidAddress ''0xB'')"
    by (simp add: ValidateAddress_def IsHexAddress_def isHex_def isHexCharacter_def
      AddressLength_def)
  with Validate_check_order [of ?p ValidateAddress "\<lambda>_. replicate 32 0"]
  show ?thesis by blast
qed

subsection \<open>Construction\<close>

text \<open>
  Claim C7. \<open>NewParams\<close> keeps the two boolean arguments and stores each list in ascending
  order with the elements of the input. From the native list
  \<open>0x0000000000000000000000000000000000000002\<close>,
  \<open>0x0000000000000000000000000000000000000001\<close> and an empty dynamic list it stores the two
  strings in the other order, and \<open>Validate\<close> accepts the result whenever the validator
  accepts the two strings.
\<close>

theorem NewParams_sorts_inputs:
  "EnableErc20 (NewParams e n d r) = e
   \<and> PermissionlessRegistration (NewParams e n d r) = r
   \<and> sorted (NativePrecompiles (NewParams e n d r))
   \<and> mset (NativePrecompiles (NewParams e n d r)) = mset n
   \<and> sorted (DynamicPrecompiles (NewParams e n d r))
   \<and> mset (DynamicPrecompiles (NewParams e n d r)) = mset d
   \<and> NativePrecompiles (NewParams True
        [''0x0000000000000000000000000000000000000002'',
         ''0x0000000000000000000000000000000000000001''] [] True)
      = [''0x0000000000000000000000000000000000000001'',
         ''0x0000000000000000000000000000000000000002'']
   \<and> (validateAddress ''0x0000000000000000000000000000000000000001'' = None
      \<and> validateAddress ''0x0000000000000000000000000000000000000002'' = None
      \<longrightarrow> Validate validateAddress keccak (NewParams True
            [''0x0000000000000000000000000000000000000002'',
             ''0x0000000000000000000000000000000000000001''] [] True) = None)"
proof -
  have fields: "EnableErc20 (NewParams e n d r) = e"
    "PermissionlessRegistration (NewParams e n d r) = r"
    "sorted (NativePrecompiles (NewParams e n d r))"
    "mset (NativePrecompiles (NewParams e n d r)) = mset n"
    "sorted (DynamicPrecompiles (NewParams e n d r))"
    "mset (DynamicPrecompiles (NewParams e n d r)) = mset d"
    by (simp_all add: NewParams_def slices_Sort_def)
  have stored: "NewParams True
        [''0x0000000000000000000000000000000000000002'',
         ''0x0000000000000000000000000000000000000001''] [] True
      = \<lparr>EnableErc20 = True,
         NativePrecompiles = [''0x0000000000000000000000000000000000000001'',
           ''0x0000000000000000000000000000000000000002''],
         DynamicPrecompiles = [],
         PermissionlessRegistration = True\<rparr>"
    by (simp add: NewParams_def slices_Sort_def)
  have differ: "HexToAddress ''0x0000000000000000000000000000000000000001''
      \<noteq> HexToAddress ''0x0000000000000000000000000000000000000002''"
    by (simp add: HexToAddress_def FromHex_def BytesToAddress_def AddressLength_def
      fromHexChar_def byte_of_def)
  have valid: "validateAddress ''0x0000000000000000000000000000000000000001'' = None
      \<and> validateAddress ''0x0000000000000000000000000000000000000002'' = None
      \<longrightarrow> Validate validateAddress keccak (NewParams True
            [''0x0000000000000000000000000000000000000002'',
             ''0x0000000000000000000000000000000000000001''] [] True) = None"
    unfolding stored using differ by (simp add: Validate_None_iff)
  from fields stored valid show ?thesis
    by simp
qed

theorem NewParams_sorts_inputs_witness:
  "Validate ValidateAddress (\<lambda>_. replicate 32 0) (NewParams True
     [''0x0000000000000000000000000000000000000002'',
      ''0x0000000000000000000000000000000000000001''] [] True) = None"
proof -
  have "ValidateAddress ''0x0000000000000000000000000000000000000001'' = None
      \<and> ValidateAddress ''0x0000000000000000000000000000000000000002'' = None"
    by (simp add: ValidateAddress_def IsHexAddress_def isHex_def isHexCharacter_def
      AddressLength_def)
  with NewParams_sorts_inputs [of True "[]" "[]" True ValidateAddress "\<lambda>_. replicate 32 0"]
  show ?thesis by blast
qed

text \<open>
  Claim C8. \<open>NewParams\<close> does not depend on the order of its list arguments: two
  arrangements of the same strings, in either list, give the same parameters. Building
  parameters again from the lists of a result of \<open>NewParams\<close> stores the same lists.
\<close>

theorem NewParams_order_insensitive:
  "(mset n1 = mset n2 \<and> mset d1 = mset d2 \<longrightarrow> NewParams e n1 d1 r = NewParams e n2 d2 r)
   \<and> NewParams e' (NativePrecompiles (NewParams e n d r))
        (DynamicPrecompiles (NewParams e n d r)) r'
      = NewParams e' n d r'"
proof -
  have perm: "slices_Sort xs = slices_Sort ys" if "mset xs = mset ys" for xs ys
    unfolding slices_Sort_def using that by (intro properties_for_sort) simp_all
  have idem: "slices_Sort (slices_Sort xs) = slices_Sort xs" for xs
    unfolding slices_Sort_def by (rule sorted_sort_id) (rule sorted_sort)
  have "NewParams e n1 d1 r = NewParams e n2 d2 r" if "mset n1 = mset n2" and "mset d1 = mset d2"
    unfolding NewParams_def by (simp only: perm [OF that(1)] perm [OF that(2)])
  moreover have "NewParams e' (NativePrecompiles (NewParams e n d r))
        (DynamicPrecompiles (NewParams e n d r)) r' = NewParams e' n d r'"
    unfolding NewParams_def by (simp only: Params.simps idem)
  ultimately show ?thesis by blast
qed

theorem NewParams_order_insensitive_witness:
  "NewParams True [''0x02'', ''0x01'', ''0x03''] [''b'', ''a''] False
   = NewParams True [''0x03'', ''0x01'', ''0x02''] [''a'', ''b''] False"
proof -
  have "mset [''0x02'', ''0x01'', ''0x03''] = mset [''0x03'', ''0x01'', ''0x02'']"
    by (simp only: mset.simps add_mset_commute [of "''0x02''"] add_mset_commute [of "''0x01''" "''0x03''"])
  moreover have "mset [''b'', ''a''] = mset [''a'', ''b'']"
    by (simp only: mset.simps add_mset_commute [of "''b''"])
  ultimately show ?thesis
    using NewParams_order_insensitive
    [of "[''0x02'', ''0x01'', ''0x03'']" "[''0x03'', ''0x01'', ''0x02'']"
      "[''b'', ''a'']" "[''a'', ''b'']" True False]
    by blast
qed

subsection \<open>Defaults\<close>

text \<open>
  Claim C9. \<open>DefaultParams\<close> enables ERC-20 and permissionless registration and takes its
  lists from the two package variables. As declared both are empty: an empty list passes
  \<open>ValidatePrecompiles\<close>, no address is there for the uniqueness check to find twice, and
  \<open>Validate\<close> accepts the default parameters.
\<close>

theorem DefaultParams_valid:
  "EnableErc20 (DefaultParams g) = True
   \<and> PermissionlessRegistration (DefaultParams g) = True
   \<and> NativePrecompiles (DefaultParams g) = DefaultNativePrecompiles g
   \<and> DynamicPrecompiles (DefaultParams g) = DefaultDynamicPrecompiles g
   \<and> DefaultNativePrecompiles declared_Globals = []
   \<and> DefaultDynamicPrecompiles declared_Globals = []
   \<and> ValidatePrecompiles validateAddress (AnyStrings []) = Inr []
   \<and> validatePrecompilesUniqueness keccak (AnyAddresses ([] @ [])) = None
   \<and> Validate validateAddress keccak (DefaultParams declared_Globals) = None"
  by (simp add: DefaultParams_def declared_Globals_def Validate_def)

theorem DefaultParams_valid_witness:
  "Validate ValidateAddress (\<lambda>_. replicate 32 0) (DefaultParams declared_Globals) = None"
  using DefaultParams_valid [of declared_Globals ValidateAddress "\<lambda>_. replicate 32 0"]
  by blast

subsection \<open>Membership without validation\<close>

text \<open>
  Claim C10. The membership predicates never fail, on parameters that \<open>Validate\<close> rejects
  as on the others. With every index and slice expression checked, the conversion of a
  string returns an address for every string, well formed or not, and the address has
  \<open>AddressLength\<close> bytes; each predicate returns a boolean for every \<open>Params\<close> and every
  address, the one that says whether the address is the canonical address of a stored
  string; on an empty list it returns false.
\<close>

theorem membership_never_panics:
  "HexToAddress_checked s = Some (HexToAddress s)
   \<and> length (HexToAddress s) = AddressLength
   \<and> IsNativePrecompile_checked p addr = Some (IsNativePrecompile p addr)
   \<and> IsDynamicPrecompile_checked p addr = Some (IsDynamicPrecompile p addr)
   \<and> IsNativePrecompile_checked p addr
       = Some (\<exists>sa \<in> set (NativePrecompiles p). addr = HexToAddress sa)
   \<and> IsDynamicPrecompile_checked p addr
       = Some (\<exists>sa \<in> set (DynamicPrecompiles p). addr = HexToAddress sa)
   \<and> (NativePrecompiles p = [] \<longrightarrow> IsNativePrecompile_checked p addr = Some False)
   \<and> (DynamicPrecompiles p = [] \<longrightarrow> IsDynamicPrecompile_checked p addr = Some False)"
proof -
  have native: "IsNativePrecompile_checked p addr = Some (IsNativePrecompile p addr)"
    by (simp only: IsNativePrecompile_checked_def IsNativePrecompile_def
      isAddrIncluded_checked_eq)
  have dynamic: "IsDynamicPrecompile_checked p addr = Some (IsDynamicPrecompile p addr)"
    by (simp only: IsDynamicPrecompile_checked_def IsDynamicPrecompile_def
      isAddrIncluded_checked_eq)
  have "IsNativePrecompile p addr = (\<exists>sa \<in> set (NativePrecompiles p). addr = HexToAddress sa)"
    unfolding IsNativePrecompile_def isAddrIncluded_iff by blast
  moreover
  have "IsDynamicPrecompile p addr = (\<exists>sa \<in> set (DynamicPrecompiles p). addr = HexToAddress sa)"
    unfolding IsDynamicPrecompile_def isAddrIncluded_iff by blast
  ultimately show ?thesis
    using native dynamic HexToAddress_checked_eq [of s] length_HexToAddress [of s]
    by simp
qed

theorem membership_never_panics_witness:
  "HexToAddress_checked ''not-an-address'' = Some (replicate 20 0)
   \<and> HexToAddress_checked ''0xff0000000000000000000000000000000000000001''
       = Some (HexToAddress ''0x0000000000000000000000000000000000000001'')
   \<and> IsNativePrecompile_checked
       \<lparr>EnableErc20 = True, NativePrecompiles = [''0x'', ''not-an-address''],
        DynamicPrecompiles = [], PermissionlessRegistration = True\<rparr>
       (replicate 20 0) = Some True
   \<and> IsDynamicPrecompile_checked
       \<lparr>EnableErc20 = True, NativePrecompiles = [''0x'', ''not-an-address''],
        DynamicPrecompiles = [], PermissionlessRegistration = True\<rparr>
       (replicate 20 0) = Some False"
proof -
  let ?p = "\<lparr>EnableErc20 = True, NativePrecompiles = [''0x'', ''not-an-address''],
        DynamicPrecompiles = [], PermissionlessRegistration = True\<rparr>"
  have zero: "HexToAddress ''not-an-address'' = replicate 20 0"
    by (simp add: HexToAddress_def FromHex_def BytesToAddress_def AddressLength_def
      fromHexChar_def byte_of_def)
  have empty: "HexToAddress ''0x'' = replicate 20 0"
    by (simp add: HexToAddress_def FromHex_def BytesToAddress_def AddressLength_def)
  have long: "HexToAddress ''0xff0000000000000000000000000000000000000001''
      = HexToAddress ''0x0000000000000000000000000000000000000001''"
    by (simp add: HexToAddress_def FromHex_def BytesToAddress_def AddressLength_def
      fromHexChar_def byte_of_def)
  have "HexToAddress_checked ''not-an-address'' = Some (replicate 20 0)"
    using membership_never_panics [of "''not-an-address''"] zero by (simp only:)
  moreover have "HexToAddress_checked ''0xff0000000000000000000000000000000000000001''
      = Some (HexToAddress ''0x0000000000000000000000000000000000000001'')"
    using membership_never_panics [of "''0xff0000000000000000000000000000000000000001''"] long
    by (simp only:)
  moreover have "IsNativePrecompile_checked ?p (HexToAddress ''0x'')
      = Some (\<exists>sa \<in> set (NativePrecompiles ?p). HexToAddress ''0x'' = HexToAddress sa)"
    using membership_never_panics [of "''0x''" ?p "HexToAddress ''0x''"] by blast
  then have "IsNativePrecompile_checked ?p (HexToAddress ''0x'') = Some True"
    by simp
  then have "IsNativePrecompile_checked ?p (replicate 20 0) = Some True"
    by (simp only: empty)
  moreover have "IsDynamicPrecompile_checked ?p (HexToAddress ''0x'')
      = Some (\<exists>sa \<in> set (DynamicPrecompiles ?p). HexToAddress ''0x'' = HexToAddress sa)"
    using membership_never_panics [of "''0x''" ?p "HexToAddress ''0x''"] by blast
  then have "IsDynamicPrecompile_checked ?p (HexToAddress ''0x'') = Some False"
    by simp
  then have "IsDynamicPrecompile_checked ?p (replicate 20 0) = Some False"
    by (simp only: empty)
  ultimately show ?thesis by blast
qed

end
